theory Spec2Isabelle
  imports Main
begin

section \<open>The extension host side: \<^verbatim>\<open>MarkdownEditorProvider\<close>\<close>

text \<open>
  A call either returns or throws (for an \<^verbatim>\<open>async\<close> method: its promise is fulfilled or
  rejected). The string of \<open>Threw\<close> is the error as \<^verbatim>\<open>${error}\<close> renders it.
\<close>

datatype completion = Normal | Threw string

text \<open>
  The three notification calls of \<^verbatim>\<open>vscode.window\<close>, the messages posted to the webview
  and the messages the webview posts back.
\<close>

datatype notification = InformationMessage string | WarningMessage string | ErrorMessage string

datatype to_webview = LoadContent string string | TogglePreview | UnknownToWebview string

datatype from_webview = ContentChanged string | Ready | UnknownFromWebview string

subsection \<open>Recent files\<close>

text \<open>
  \<^verbatim>\<open>_addToRecentFiles\<close> reads the stored list, removes the path with
  \<^verbatim>\<open>filter(f => f !== filePath)\<close>, puts it in front with \<^verbatim>\<open>unshift\<close> and keeps
  \<^verbatim>\<open>slice(0, MAX_RECENT_FILES)\<close>.
\<close>

definition MAX_RECENT_FILES :: nat where
  "MAX_RECENT_FILES = 10"

definition addToRecentFiles :: "string \<Rightarrow> string list \<Rightarrow> string list" where
  "addToRecentFiles filePath recentFiles =
     (let filtered = filter (\<lambda>f. f \<noteq> filePath) recentFiles;
          filtered = filePath # filtered;
          trimmed = take MAX_RECENT_FILES filtered
      in trimmed)"

text \<open>Touching the paths of a list one after the other, the first path first.\<close>

definition touch_all :: "string list \<Rightarrow> string list \<Rightarrow> string list" where
  "touch_all ps recentFiles = foldl (\<lambda>l p. addToRecentFiles p l) recentFiles ps"

text \<open>
  The provider object with the part of the outside world it acts on. A \<^verbatim>\<open>vscode.Uri\<close> is
  its \<^verbatim>\<open>fsPath\<close>. File contents are strings (the UTF-8 decoding of \<^verbatim>\<open>Buffer.from\<close> is
  taken as the identity). \<open>disk p\<close> is what \<^verbatim>\<open>workspace.fs.readFile\<close> gives for path \<open>p\<close>:
  the content, or the error it rejects with; \<open>write_fault p\<close> is the error
  \<^verbatim>\<open>workspace.fs.writeFile\<close> rejects with for \<open>p\<close>, if it does. \<open>timers\<close> are the pending
  timeouts of the event loop, each with its handle and the time it is due; \<open>writes\<close>,
  \<open>notifications\<close> and \<open>posted\<close> log the calls of \<^verbatim>\<open>writeFile\<close>, of the notification
  functions and of \<^verbatim>\<open>webview.postMessage\<close>.
\<close>

record host =
  view :: bool
  currentFileUri :: "string option"
  currentContent :: string
  autoSaveTimeout :: "nat option"
  lastOpenedFile :: "string option"
  recentFiles :: "string list"
  disk :: "string \<Rightarrow> string + string"
  write_fault :: "string \<Rightarrow> string option"
  timers :: "(nat \<times> nat) list"
  nextTimer :: nat
  clock :: nat
  writes :: "(string \<times> string) list"
  notifications :: "notification list"
  posted :: "to_webview list"

definition new_provider ::
  "(string \<Rightarrow> string + string) \<Rightarrow> (string \<Rightarrow> string option) \<Rightarrow> string option \<Rightarrow> string list \<Rightarrow> host"
where
  "new_provider files faults lastFile recent =
     \<lparr>view = False, currentFileUri = None, currentContent = [], autoSaveTimeout = None,
      lastOpenedFile = lastFile, recentFiles = recent, disk = files, write_fault = faults,
      timers = [], nextTimer = 0, clock = 0, writes = [], notifications = [], posted = []\<rparr>"

definition saveLastFile :: "string \<Rightarrow> host \<Rightarrow> host" where
  "saveLastFile uri h =
     h\<lparr>lastOpenedFile := Some uri, recentFiles := addToRecentFiles uri (recentFiles h)\<rparr>"

subsection \<open>File names and messages\<close>

text \<open>
  \<^verbatim>\<open>split(/[/\\]/)\<close> cuts a string at every separator; the result is never empty.
  \<^verbatim>\<open>_getFilename\<close> takes the last part.
\<close>

fun split_at :: "(char \<Rightarrow> bool) \<Rightarrow> string \<Rightarrow> string list" where
  "split_at sep [] = [[]]"
| "split_at sep (c # cs) =
     (if sep c then [] # split_at sep cs
      else (case split_at sep cs of [] \<Rightarrow> [[c]] | p # ps \<Rightarrow> (c # p) # ps))"

definition path_separator :: "char \<Rightarrow> bool" where
  "path_separator c \<longleftrightarrow> c = CHR ''/'' \<or> c = CHR 0x5C"

definition getFilename :: "string \<Rightarrow> string" where
  "getFilename uri = (let parts = split_at path_separator uri in parts ! (length parts - 1))"

definition postMessage :: "to_webview \<Rightarrow> host \<Rightarrow> host" where
  "postMessage m h = (if view h then h\<lparr>posted := posted h @ [m]\<rparr> else h)"

definition notify :: "notification \<Rightarrow> host \<Rightarrow> host" where
  "notify n h = h\<lparr>notifications := notifications h @ [n]\<rparr>"

subsection \<open>Reading and writing files\<close>

definition writeFile :: "string \<Rightarrow> string \<Rightarrow> host \<Rightarrow> string option \<times> host" where
  "writeFile uri content h =
     (let h' = h\<lparr>writes := writes h @ [(uri, content)]\<rparr>
      in case write_fault h uri of
           Some e \<Rightarrow> (Some e, h')
         | None \<Rightarrow> (None, h'\<lparr>disk := (disk h)(uri := Inr content)\<rparr>))"

definition loadLastFile :: "host \<Rightarrow> host" where
  "loadLastFile h =
     (case lastOpenedFile h of
        None \<Rightarrow> h
      | Some lastFilePath \<Rightarrow>
          if lastFilePath = [] then h
          else (case disk h lastFilePath of
                  Inr content \<Rightarrow>
                    postMessage (LoadContent content (getFilename lastFilePath))
                      (h\<lparr>currentFileUri := Some lastFilePath, currentContent := content\<rparr>)
                | Inl e \<Rightarrow> h\<lparr>lastOpenedFile := None\<rparr>))"

definition restoreContent :: "host \<Rightarrow> host" where
  "restoreContent h =
     (case currentFileUri h of
        Some uri \<Rightarrow>
          if currentContent h \<noteq> []
          then postMessage (LoadContent (currentContent h) (getFilename uri)) h
          else loadLastFile h
      | None \<Rightarrow> loadLastFile h)"

text \<open>
  \<^verbatim>\<open>_openFileByPath\<close> reads inside \<^verbatim>\<open>try\<close>, before it assigns anything, and reports a
  failure with \<^verbatim>\<open>showErrorMessage\<close>.
\<close>

definition openFileByPath :: "string \<Rightarrow> host \<Rightarrow> completion \<times> host" where
  "openFileByPath filePath h =
     (case disk h filePath of
        Inr content \<Rightarrow>
          (Normal,
           postMessage (LoadContent content (getFilename filePath))
             (saveLastFile filePath
                (h\<lparr>currentFileUri := Some filePath, currentContent := content\<rparr>)))
      | Inl e \<Rightarrow> (Normal, notify (ErrorMessage (''Failed to open file: '' @ filePath)) h))"

text \<open>
  \<^verbatim>\<open>showRecentFiles\<close>; \<open>selected\<close> is what the user picks in \<^verbatim>\<open>showQuickPick\<close>
  (the \<^verbatim>\<open>filePath\<close> of the item, or nothing).
\<close>

definition showRecentFiles :: "string option \<Rightarrow> host \<Rightarrow> completion \<times> host" where
  "showRecentFiles selected h =
     (if length (recentFiles h) = 0
      then (Normal, notify (InformationMessage ''No recent files'') h)
      else (case selected of
              Some filePath \<Rightarrow> openFileByPath filePath h
            | None \<Rightarrow> (Normal, h)))"

text \<open>
  \<^verbatim>\<open>openFile\<close>; \<open>fileUri\<close> is what the user picks in \<^verbatim>\<open>showOpenDialog\<close>. The method
  assigns \<^verbatim>\<open>_currentFileUri\<close> first and reads the file after that, outside any
  \<^verbatim>\<open>try\<close>: a failed read rejects the promise of \<^verbatim>\<open>openFile\<close>.
\<close>

definition openFile :: "string option \<Rightarrow> host \<Rightarrow> completion \<times> host" where
  "openFile fileUri h =
     (case fileUri of
        None \<Rightarrow> (Normal, h)
      | Some uri \<Rightarrow>
          (let h1 = h\<lparr>currentFileUri := Some uri\<rparr>
           in case disk h1 uri of
                Inl e \<Rightarrow> (Threw e, h1)
              | Inr content \<Rightarrow>
                  (Normal,
                   postMessage (LoadContent content (getFilename uri))
                     (saveLastFile uri (h1\<lparr>currentContent := content\<rparr>)))))"

definition saveFile :: "host \<Rightarrow> completion \<times> host" where
  "saveFile h =
     (case currentFileUri h of
        None \<Rightarrow> (Normal, notify (WarningMessage ''No file is currently open'') h)
      | Some uri \<Rightarrow>
          (case writeFile uri (currentContent h) h of
             (None, h') \<Rightarrow> (Normal, notify (InformationMessage (''Saved '' @ getFilename uri)) h')
           | (Some error, h') \<Rightarrow>
               (Normal, notify (ErrorMessage (''Failed to save file: '' @ error)) h')))"

definition togglePreview :: "host \<Rightarrow> completion \<times> host" where
  "togglePreview h = (Normal, postMessage TogglePreview h)"

subsection \<open>Auto-save\<close>

definition clearTimeout :: "nat \<Rightarrow> host \<Rightarrow> host" where
  "clearTimeout t h = h\<lparr>timers := filter (\<lambda>(i, due). i \<noteq> t) (timers h)\<rparr>"

definition setTimeout :: "nat \<Rightarrow> host \<Rightarrow> nat \<times> host" where
  "setTimeout delay h =
     (nextTimer h,
      h\<lparr>timers := timers h @ [(nextTimer h, clock h + delay)], nextTimer := nextTimer h + 1\<rparr>)"

definition scheduleAutoSave :: "host \<Rightarrow> host" where
  "scheduleAutoSave h =
     (let h1 = (case autoSaveTimeout h of Some t \<Rightarrow> clearTimeout t h | None \<Rightarrow> h);
          (t, h2) = setTimeout 1000 h1
      in h2\<lparr>autoSaveTimeout := Some t\<rparr>)"

text \<open>
  \<^verbatim>\<open>_autoSave\<close> returns at once when no file is open; an error of \<^verbatim>\<open>writeFile\<close> is
  caught by an empty \<^verbatim>\<open>catch\<close>.
\<close>

definition autoSave :: "host \<Rightarrow> completion \<times> host" where
  "autoSave h =
     (case currentFileUri h of
        None \<Rightarrow> (Normal, h)
      | Some uri \<Rightarrow>
          (case writeFile uri (currentContent h) h of
             (None, h') \<Rightarrow> (Normal, h')
           | (Some error, h') \<Rightarrow> (Normal, h')))"

subsection \<open>The handlers of \<^verbatim>\<open>resolveWebviewView\<close>\<close>

definition onDidReceiveMessage :: "from_webview \<Rightarrow> host \<Rightarrow> completion \<times> host" where
  "onDidReceiveMessage data h =
     (case data of
        ContentChanged content \<Rightarrow> (Normal, scheduleAutoSave (h\<lparr>currentContent := content\<rparr>))
      | Ready \<Rightarrow> (Normal, restoreContent h)
      | UnknownFromWebview ty \<Rightarrow> (Normal, h))"

definition onDidChangeVisibility :: "bool \<Rightarrow> host \<Rightarrow> completion \<times> host" where
  "onDidChangeVisibility visible h =
     (if visible \<and> currentFileUri h \<noteq> None then (Normal, restoreContent h) else (Normal, h))"

definition resolveWebviewView :: "host \<Rightarrow> host" where
  "resolveWebviewView h = h\<lparr>view := True\<rparr>"

subsection \<open>The event loop\<close>

text \<open>
  A timeout that fires leaves the pending timers and runs its callback, which calls
  \<^verbatim>\<open>_autoSave\<close> and drops its promise. When time passes, the timeouts that have become
  due fire, the earliest first.
\<close>

definition fire_timer :: "nat \<times> nat \<Rightarrow> host \<Rightarrow> host" where
  "fire_timer t h =
     (if t \<in> set (timers h) then snd (autoSave (h\<lparr>timers := remove1 t (timers h)\<rparr>)) else h)"

definition elapse :: "nat \<Rightarrow> host \<Rightarrow> host" where
  "elapse ms h =
     (let h1 = h\<lparr>clock := clock h + ms\<rparr>;
          due = sort_key snd (filter (\<lambda>(i, t). t \<le> clock h1) (timers h1))
      in foldl (\<lambda>s t. fire_timer t s) h1 due)"

text \<open>
  What can happen to the provider: a message of the webview, time passing, the view
  being resolved or shown, and the commands with what the user picks in their dialogs.
  A rejected promise of a command is dropped by the caller; the state stays.
\<close>

datatype event =
    Message from_webview
  | Elapse nat
  | Resolve
  | Visibility bool
  | OpenFile "string option"
  | ShowRecentFiles "string option"
  | SaveFile
  | TogglePreviewCommand

fun step :: "host \<Rightarrow> event \<Rightarrow> host" where
  "step h (Message data) = snd (onDidReceiveMessage data h)"
| "step h (Elapse ms) = elapse ms h"
| "step h Resolve = resolveWebviewView h"
| "step h (Visibility visible) = snd (onDidChangeVisibility visible h)"
| "step h (OpenFile fileUri) = snd (openFile fileUri h)"
| "step h (ShowRecentFiles selected) = snd (showRecentFiles selected h)"
| "step h SaveFile = snd (saveFile h)"
| "step h TogglePreviewCommand = snd (togglePreview h)"

definition run :: "event list \<Rightarrow> host \<Rightarrow> host" where
  "run evs h = foldl step h evs"

text \<open>
  A burst of edits: each content is sent as \<^verbatim>\<open>contentChanged\<close> and followed by the
  time that passes before the next event.
\<close>

definition edits :: "(string \<times> nat) list \<Rightarrow> event list" where
  "edits es = concat (map (\<lambda>(content, ms). [Message (ContentChanged content), Elapse ms]) es)"

text \<open>No timeout is pending, or one is and the provider holds its handle.\<close>

definition timer_inv :: "host \<Rightarrow> bool" where
  "timer_inv h =
     (case timers h of
        [] \<Rightarrow> True
      | [(i, due)] \<Rightarrow> autoSaveTimeout h = Some i
      | _ \<Rightarrow> False)"

subsection \<open>The commands of \<^verbatim>\<open>extension.ts\<close>\<close>

text \<open>
  \<^verbatim>\<open>activate\<close> registers four commands; the handler of each calls one member of the
  provider by name. \<open>provider_members\<close> are the methods the class
  \<^verbatim>\<open>MarkdownEditorProvider\<close> defines, all of them: the class extends nothing, and its
  other properties are fields and hold no function. Calling a property that the object
  does not have throws a \<^verbatim>\<open>TypeError\<close>.
\<close>

definition provider_members :: "string list" where
  "provider_members =
     [''resolveWebviewView'', ''_restoreContent'', ''_loadLastFile'', ''_saveLastFile'',
      ''_addToRecentFiles'', ''showRecentFiles'', ''_openFileByPath'', ''_scheduleAutoSave'',
      ''_autoSave'', ''openFile'', ''saveFile'', ''togglePreview'', ''_getFilename'',
      ''_getHtmlForWebview'']"

definition command_member :: "string \<Rightarrow> string option" where
  "command_member command =
     map_of [(''markdownSidebar.open'', ''openFile''),
             (''markdownSidebar.recentFiles'', ''showRecentFiles''),
             (''markdownSidebar.togglePreview'', ''togglePreview''),
             (''markdownSidebar.openFromExplorer'', ''openFileFromUri'')] command"

text \<open>
  \<open>call_member\<close>: the call \<^verbatim>\<open>provider.name(...)\<close> of a command handler; \<open>picked\<close> is
  what the user picks in the dialog the method opens, \<open>arg\<close> the argument of the command.
  The handlers call public methods without parameters only, and these are the ones
  dispatched here. The call of an \<^verbatim>\<open>async\<close> method returns its promise, which the
  handler drops: the handler returns normally also when the promise is rejected, and
  what the method did to the provider stays. Only the call of a missing member throws
  in the handler itself.
\<close>

definition call_member :: "string \<Rightarrow> string option \<Rightarrow> string option \<Rightarrow> host \<Rightarrow> completion \<times> host" where
  "call_member name arg picked h =
     (if name \<notin> set provider_members
      then (Threw (''TypeError: provider.'' @ name @ '' is not a function''), h)
      else if name = ''openFile'' then (Normal, snd (openFile picked h))
      else if name = ''showRecentFiles'' then (Normal, snd (showRecentFiles picked h))
      else if name = ''togglePreview'' then togglePreview h
      else if name = ''saveFile'' then (Normal, snd (saveFile h))
      else (Normal, h))"

definition executeCommand :: "string \<Rightarrow> string option \<Rightarrow> string option \<Rightarrow> host \<Rightarrow> completion \<times> host" where
  "executeCommand command arg picked h =
     (case command_member command of
        None \<Rightarrow> (Threw (''command '' @ command @ '' not found''), h)
      | Some name \<Rightarrow> call_member name arg picked h)"

section \<open>The webview side: the script of the page\<close>

subsection \<open>Strings of the script\<close>

text \<open>
  Strings are lists of 8-bit characters. \<open>js_space\<close> is the white space of JavaScript
  (\<^verbatim>\<open>\s\<close>, and what \<^verbatim>\<open>trim\<close> removes) in that range: tab, line feed, vertical tab, form
  feed, carriage return, space and no-break space.
\<close>

definition js_space :: "char \<Rightarrow> bool" where
  "js_space c \<longleftrightarrow> c \<in> set [CHR 0x09, CHR 0x0A, CHR 0x0B, CHR 0x0C, CHR 0x0D, CHR 0x20, CHR 0xA0]"

definition trim :: "string \<Rightarrow> string" where
  "trim s = rev (dropWhile js_space (rev (dropWhile js_space s)))"

text \<open>A number in a string concatenation: its decimal digits.\<close>

definition digit_char :: "nat \<Rightarrow> char" where
  "digit_char d = ''0123456789'' ! d"

function show_nat :: "nat \<Rightarrow> string" where
  "show_nat n = (if n < 10 then [digit_char n] else show_nat (n div 10) @ [digit_char (n mod 10)])"
  by pat_completeness auto
termination
  by (relation "measure id") auto

declare show_nat.simps [simp del]

text \<open>\<^verbatim>\<open>s.replace(/c/g, r)\<close> for a single character \<open>c\<close>.\<close>

definition replace_char :: "char \<Rightarrow> string \<Rightarrow> string \<Rightarrow> string" where
  "replace_char c r s = concat (map (\<lambda>x. if x = c then r else [x]) s)"

subsection \<open>Extracting the diagram blocks\<close>

text \<open>
  The pattern is three backticks, \<^verbatim>\<open>mermaid\<close>, \<^verbatim>\<open>\s*\n\<close>, the lazy group
  \<^verbatim>\<open>([\s\S]*?)\<close> and three backticks again, with the flag \<^verbatim>\<open>g\<close>.
  \<open>after_prefix p s\<close> matches the literal \<open>p\<close> at the start of \<open>s\<close> and gives the rest.
  \<open>find_first p s\<close> is the first occurrence of \<open>p\<close> in \<open>s\<close>: what is before it and what
  is after it; a lazy group followed by a literal stops there.
  \<open>space_then_newline s\<close> are the ways \<^verbatim>\<open>\s*\n\<close> matches at the start of \<open>s\<close>, each
  given by the rest of \<open>s\<close>, in the order in which the greedy star tries them: the
  longest run of white space first.
\<close>

definition backticks :: string where
  "backticks = [CHR 0x60, CHR 0x60, CHR 0x60]"

fun after_prefix :: "string \<Rightarrow> string \<Rightarrow> string option" where
  "after_prefix [] s = Some s"
| "after_prefix (p # ps) [] = None"
| "after_prefix (p # ps) (c # cs) = (if p = c then after_prefix ps cs else None)"

fun find_first :: "string \<Rightarrow> string \<Rightarrow> (string \<times> string) option" where
  "find_first p [] = (case after_prefix p [] of Some r \<Rightarrow> Some ([], r) | None \<Rightarrow> None)"
| "find_first p (c # cs) =
     (case after_prefix p (c # cs) of
        Some r \<Rightarrow> Some ([], r)
      | None \<Rightarrow> (case find_first p cs of
                   Some (before, r) \<Rightarrow> Some (c # before, r)
                 | None \<Rightarrow> None))"

fun space_then_newline :: "string \<Rightarrow> string list" where
  "space_then_newline [] = []"
| "space_then_newline (c # cs) =
     (if js_space c
      then space_then_newline cs @ (if c = CHR 0x0A then [cs] else [])
      else [])"

fun first_some :: "('a \<Rightarrow> 'b option) \<Rightarrow> 'a list \<Rightarrow> 'b option" where
  "first_some f [] = None"
| "first_some f (x # xs) = (case f x of Some y \<Rightarrow> Some y | None \<Rightarrow> first_some f xs)"

text \<open>
  A match of the whole pattern at the start of \<open>s\<close>: the captured group and what
  follows the match.
\<close>

definition mermaid_match :: "string \<Rightarrow> (string \<times> string) option" where
  "mermaid_match s =
     (case after_prefix (backticks @ ''mermaid'') s of
        None \<Rightarrow> None
      | Some r \<Rightarrow> first_some (find_first backticks) (space_then_newline r))"

lemma after_prefix_length: "after_prefix p s = Some r \<Longrightarrow> length r \<le> length s"
  by (induction p s rule: after_prefix.induct) (auto split: if_splits)

lemma find_first_length: "find_first p s = Some (b, r) \<Longrightarrow> length r \<le> length s"
proof (induction p s arbitrary: b rule: find_first.induct)
  case (1 p)
  then show ?case by (auto split: option.splits dest: after_prefix_length)
next
  case (2 p c cs)
  then show ?case
    by (fastforce split: option.splits prod.splits dest: after_prefix_length)
qed

lemma space_then_newline_length: "x \<in> set (space_then_newline s) \<Longrightarrow> length x < length s"
  by (induction s) (auto split: if_splits)

lemma first_some_in: "first_some f xs = Some y \<Longrightarrow> \<exists>x\<in>set xs. f x = Some y"
  by (induction xs) (auto split: option.splits)

lemma mermaid_match_length: "mermaid_match s = Some (body, r) \<Longrightarrow> length r < length s"
proof -
  assume m: "mermaid_match s = Some (body, r)"
  then obtain r0 where p: "after_prefix (backticks @ ''mermaid'') s = Some r0"
    and f: "first_some (find_first backticks) (space_then_newline r0) = Some (body, r)"
    by (auto simp: mermaid_match_def split: option.splits)
  from f obtain x where x: "x \<in> set (space_then_newline r0)" and fx: "find_first backticks x = Some (body, r)"
    by (blast dest: first_some_in)
  have "length r \<le> length x" using fx by (rule find_first_length)
  also have "\<dots> < length r0" using x by (rule space_then_newline_length)
  also have "\<dots> \<le> length s" using p by (rule after_prefix_length)
  finally show ?thesis .
qed

text \<open>
  The callback of \<^verbatim>\<open>replace\<close>: the block it pushes for the captured code when the
  counter is \<open>n\<close>, and the markup it returns.
\<close>

record block =
  block_id :: string
  block_code :: string
  diagramType :: string

definition make_block :: "nat \<Rightarrow> string \<Rightarrow> block" where
  "make_block n captured =
     (let id = ''mermaid-'' @ show_nat n;
          trimmedCode = trim captured;
          diagramType = (case split_at js_space trimmedCode of
                           [] \<Rightarrow> ''unknown''
                         | first # parts \<Rightarrow> if first = [] then ''unknown'' else first)
      in \<lparr>block_id = id, block_code = trimmedCode, diagramType = diagramType\<rparr>)"

definition placeholder_div :: "string \<Rightarrow> string" where
  \<open>placeholder_div ident = ''<div class="mermaid" id="'' @ ident @ ''"></div>''\<close>

text \<open>
  \<^verbatim>\<open>text.replace(mermaidRegex, callback)\<close> with the counter \<^verbatim>\<open>mermaidId\<close> at \<open>n\<close>: the
  processed text, the blocks pushed and the counter afterwards.
\<close>

function replace_mermaid :: "string \<Rightarrow> nat \<Rightarrow> string \<times> block list \<times> nat" where
  "replace_mermaid [] n = ([], [], n)"
| "replace_mermaid (c # cs) n =
     (case mermaid_match (c # cs) of
        None \<Rightarrow> (case replace_mermaid cs n of (processed, blocks, n') \<Rightarrow> (c # processed, blocks, n'))
      | Some (captured, rest) \<Rightarrow>
          (case replace_mermaid rest (n + 1) of
             (processed, blocks, n') \<Rightarrow>
               (placeholder_div (block_id (make_block n captured)) @ processed,
                make_block n captured # blocks, n')))"
  by pat_completeness auto
termination
  by (relation "measure (\<lambda>(s, n). length s)") (auto dest: mermaid_match_length)

subsection \<open>Rendering\<close>

text \<open>
  The libraries of the page and the browser, as far as the script uses them:
  \<^verbatim>\<open>marked.parse\<close> and the highlighting of the code blocks can throw;
  \<open>elements_of html\<close> are the elements that \<^verbatim>\<open>getElementById\<close> finds after
  \<^verbatim>\<open>preview.innerHTML = html\<close>, each with its \<^verbatim>\<open>innerHTML\<close>; \<open>mermaid_render id code\<close>
  is the SVG, or the message of the error that \<^verbatim>\<open>mermaid.render\<close> fails with.
\<close>

type_synonym dom = "string \<Rightarrow> string option"

record libs =
  marked_parse :: "string \<Rightarrow> string + string"
  elements_of :: "string \<Rightarrow> dom"
  hljs_highlight :: "dom \<Rightarrow> string + dom"
  mermaid_render :: "string \<Rightarrow> string \<Rightarrow> string + string"

definition escape_angle :: "string \<Rightarrow> string" where
  "escape_angle s = replace_char (CHR ''>'') ''&gt;'' (replace_char (CHR ''<'') ''&lt;'' s)"

definition error_html :: "block \<Rightarrow> string \<Rightarrow> string" where
  \<open>error_html b message =
     ''<div style="border: 1px solid #f44336; border-radius: 4px; padding: 8px; margin: 8px 0; text-align: left;">'' @
     ''<div style="color: #f44336; font-weight: bold; margin-bottom: 4px;">Mermaid Error ('' @ diagramType b @ '')</div>'' @
     ''<div style="color: #ff9800; font-size: 12px; margin-bottom: 8px;">'' @ message @ ''</div>'' @
     ''<details style="font-size: 11px;">'' @
     ''<summary style="cursor: pointer; color: var(--vscode-descriptionForeground);">Show code</summary>'' @
     ''<pre style="margin-top: 8px; padding: 8px; background: var(--vscode-textCodeBlock-background); overflow-x: auto; white-space: pre-wrap;">'' @
     escape_angle (block_code b) @
     ''</pre></details></div>''\<close>

text \<open>
  The loop over the blocks: a block whose element is missing is skipped; the SVG, or
  in the \<^verbatim>\<open>catch\<close> the error markup, becomes the \<^verbatim>\<open>innerHTML\<close> of the element.
\<close>

fun render_blocks :: "libs \<Rightarrow> block list \<Rightarrow> dom \<Rightarrow> dom" where
  "render_blocks L [] d = d"
| "render_blocks L (b # bs) d =
     (case d (block_id b) of
        None \<Rightarrow> render_blocks L bs d
      | Some old \<Rightarrow>
          (case mermaid_render L (block_id b @ ''-svg'') (block_code b) of
             Inr svg \<Rightarrow> render_blocks L bs (d(block_id b \<mapsto> svg))
           | Inl message \<Rightarrow> render_blocks L bs (d(block_id b \<mapsto> error_html b message))))"

text \<open>
  The page: the three variables of the script, the editor, the header and which parts
  are hidden, the markup last assigned to the preview with the elements
  \<^verbatim>\<open>getElementById\<close> finds in it, and the messages posted to the extension. A render
  pass is taken as one step: what the script does after an \<^verbatim>\<open>await\<close> writes the
  elements and the mode indicator only.
\<close>

record webview =
  isPreviewMode :: bool
  hasFile :: bool
  mermaidId :: nat
  editor_value :: string
  filename_text :: string
  modeIndicator_text :: string
  placeholder_hidden :: bool
  editor_hidden :: bool
  preview_hidden :: bool
  preview_markup :: string
  elements :: dom
  outbox :: "from_webview list"

definition new_webview :: webview where
  "new_webview =
     \<lparr>isPreviewMode = False, hasFile = False, mermaidId = 0, editor_value = [],
      filename_text = ''No file open'', modeIndicator_text = ''Edit'',
      placeholder_hidden = False, editor_hidden = True, preview_hidden = True,
      preview_markup = [], elements = Map.empty, outbox = [Ready]\<rparr>"

definition renderPreview :: "libs \<Rightarrow> string \<Rightarrow> webview \<Rightarrow> completion \<times> webview" where
  "renderPreview L text w =
     (case replace_mermaid text (mermaidId w) of
        (processedText, mermaidBlocks, n') \<Rightarrow>
          (let w1 = w\<lparr>mermaidId := n'\<rparr>
           in case marked_parse L processedText of
                Inl e \<Rightarrow> (Threw e, w1)
              | Inr html \<Rightarrow>
                  (let w2 = w1\<lparr>preview_markup := html, elements := elements_of L html\<rparr>
                   in case hljs_highlight L (elements w2) of
                        Inl e \<Rightarrow> (Threw e, w2)
                      | Inr d \<Rightarrow> (Normal, w2\<lparr>elements := render_blocks L mermaidBlocks d\<rparr>))))"

definition updateView :: "libs \<Rightarrow> webview \<Rightarrow> completion \<times> webview" where
  "updateView L w =
     (if \<not> hasFile w then (Normal, w)
      else if isPreviewMode w
      then (case renderPreview L (editor_value w) (w\<lparr>editor_hidden := True, preview_hidden := False\<rparr>) of
              (Normal, w') \<Rightarrow> (Normal, w'\<lparr>modeIndicator_text := ''Preview''\<rparr>)
            | (Threw e, w') \<Rightarrow> (Threw e, w'))
      else (Normal, w\<lparr>preview_hidden := True, editor_hidden := False, modeIndicator_text := ''Edit''\<rparr>))"

text \<open>
  The listener of \<^verbatim>\<open>message\<close> (it calls \<^verbatim>\<open>updateView\<close> and drops its promise) and the
  listener of \<^verbatim>\<open>input\<close> of the editor.
\<close>

definition on_message :: "libs \<Rightarrow> to_webview \<Rightarrow> webview \<Rightarrow> webview" where
  "on_message L message w =
     (case message of
        LoadContent content name \<Rightarrow>
          w\<lparr>placeholder_hidden := True, editor_hidden := False, preview_hidden := True,
            preview_markup := [], elements := Map.empty, mermaidId := 0,
            editor_value := content, filename_text := name, hasFile := True,
            isPreviewMode := False, modeIndicator_text := ''Edit''\<rparr>
      | TogglePreview \<Rightarrow>
          if hasFile w then snd (updateView L (w\<lparr>isPreviewMode := \<not> isPreviewMode w\<rparr>)) else w
      | UnknownToWebview ty \<Rightarrow> w)"

definition on_input :: "string \<Rightarrow> webview \<Rightarrow> webview" where
  "on_input text w = w\<lparr>editor_value := text, outbox := outbox w @ [ContentChanged text]\<rparr>"

datatype view_event = FromHost to_webview | Input string

fun view_step :: "libs \<Rightarrow> webview \<Rightarrow> view_event \<Rightarrow> webview" where
  "view_step L w (FromHost message) = on_message L message w"
| "view_step L w (Input text) = on_input text w"

definition view_run :: "libs \<Rightarrow> view_event list \<Rightarrow> webview \<Rightarrow> webview" where
  "view_run L evs w = foldl (view_step L) w evs"

subsection \<open>Notions used in the properties\<close>




definition placeholder_state :: "webview \<Rightarrow> bool" where
  "placeholder_state w \<longleftrightarrow>
     \<not> isPreviewMode w \<and> modeIndicator_text w = ''Edit'' \<and> \<not> placeholder_hidden w
     \<and> editor_hidden w \<and> preview_hidden w"

subsection \<open>Example states\<close>

definition example_disk :: "string \<Rightarrow> string + string" where
  "example_disk p =
     (if p = ''/notes.md'' then Inr ''# Title''
      else if p = ''/locked.md'' then Inl ''NoPermissions''
      else Inl ''FileNotFound'')"

definition no_fault :: "string \<Rightarrow> string option" where
  "no_fault p = None"

definition disk_full :: "string \<Rightarrow> string option" where
  "disk_full p = Some ''NoSpace''"

definition example_empty :: host where
  "example_empty = resolveWebviewView (new_provider example_disk no_fault None [])"

definition example_loaded :: host where
  "example_loaded = snd (openFile (Some ''/notes.md'') example_empty)"

definition example_full :: host where
  "example_full = example_loaded\<lparr>write_fault := disk_full\<rparr>"


definition example_doc :: string where
  "example_doc = ''# T'' @ [CHR 0x0A] @ backticks @ ''mermaid'' @ [CHR 0x0A]
                   @ ''not a <real> diagram'' @ [CHR 0x0A] @ backticks"

definition example_elements :: "string \<Rightarrow> dom" where
  \<open>example_elements html ident =
     (case find_first (''id="'' @ ident @ ''"'') html of None \<Rightarrow> None | Some found \<Rightarrow> Some [])\<close>

definition example_render :: "string \<Rightarrow> string \<Rightarrow> string + string" where
  "example_render ident source =
     (if source = ''graph TD'' then Inr ''<svg></svg>'' else Inl ''Parse error on line 1'')"

definition example_libs :: libs where
  "example_libs =
     \<lparr>marked_parse = Inr, elements_of = example_elements, hljs_highlight = Inr,
      mermaid_render = example_render\<rparr>"


section \<open>Properties of the recent-files list\<close>

lemma addToRecentFiles_eq:
  "addToRecentFiles p l = p # take 9 (filter (\<lambda>f. f \<noteq> p) l)"
  by (simp add: addToRecentFiles_def MAX_RECENT_FILES_def)

lemma count_list_filter_neq:
  "count_list (filter (\<lambda>f. f \<noteq> p) l) p = 0"
  by (induction l) auto

lemma count_list_take_zero:
  "count_list l p = 0 \<Longrightarrow> count_list (take n l) p = 0"
  by (metis count_list_0_iff in_set_takeD)

lemma touch_all_snoc:
  "touch_all (ps @ [p]) l = addToRecentFiles p (touch_all ps l)"
  by (simp add: touch_all_def)

lemma touch_all_distinct_from_empty:
  "distinct ps \<Longrightarrow> touch_all ps [] = take 10 (rev ps)"
proof (induction ps rule: rev_induct)
  case Nil
  show ?case by (simp add: touch_all_def)
next
  case (snoc p ps)
  then have old: "touch_all ps [] = take 10 (rev ps)" and fresh: "p \<notin> set ps"
    by simp_all
  have "p \<notin> set (take 10 (rev ps))"
    using fresh by (auto dest: in_set_takeD)
  then have keep: "filter (\<lambda>f. f \<noteq> p) (take 10 (rev ps)) = take 10 (rev ps)"
    by (simp add: filter_id_conv) blast
  have "touch_all (ps @ [p]) [] = p # take 9 (take 10 (rev ps))"
    by (simp only: touch_all_snoc old addToRecentFiles_eq keep)
  also have "\<dots> = take 10 (rev (ps @ [p]))"
    by (simp add: take_Cons')
  finally show ?case .
qed

lemma addToRecentFiles_count: "count_list (addToRecentFiles p m) p = 1"
  by (simp add: addToRecentFiles_eq count_list_take_zero count_list_filter_neq)

lemma addToRecentFiles_front: "addToRecentFiles p m ! 0 = p"
  by (simp add: addToRecentFiles_eq)

lemma addToRecentFiles_idem:
  "addToRecentFiles p (addToRecentFiles p l) = addToRecentFiles p l"
proof -
  have "filter (\<lambda>f. f \<noteq> p) (p # take 9 (filter (\<lambda>f. f \<noteq> p) l))
          = take 9 (filter (\<lambda>f. f \<noteq> p) l)"
    by (simp add: filter_id_conv) (auto dest: in_set_takeD)
  then show ?thesis
    by (simp add: addToRecentFiles_eq)
qed

text \<open>
  C6. Whatever the stored list holds, touching a path leaves it at index 0 and nowhere
  else, followed by the other entries in their old order (the first nine of them);
  touching it a second time changes nothing, so after two touches in a row the path is
  in the list exactly once, in front.
\<close>

theorem touch_twice_once_in_front:
  "addToRecentFiles p (addToRecentFiles p l) ! 0 = p
   \<and> count_list (addToRecentFiles p (addToRecentFiles p l)) p = 1
   \<and> addToRecentFiles p (addToRecentFiles p l) = addToRecentFiles p l
   \<and> addToRecentFiles p l ! 0 = p
   \<and> count_list (addToRecentFiles p l) p = 1
   \<and> addToRecentFiles p l = p # take 9 (filter (\<lambda>f. f \<noteq> p) l)"
  by (intro conjI addToRecentFiles_front addToRecentFiles_count addToRecentFiles_idem
        addToRecentFiles_eq)

text \<open>
  C7. From the empty list, touching eleven distinct paths leaves exactly ten entries:
  the ten touched last, the latest first; the path touched first is gone.
\<close>

theorem touch_eleven_keeps_latest_ten:
  "distinct ps \<Longrightarrow> length ps = MAX_RECENT_FILES + 1 \<Longrightarrow>
     touch_all ps [] = rev (tl ps)
     \<and> length (touch_all ps []) = MAX_RECENT_FILES
     \<and> hd ps \<notin> set (touch_all ps [])"
proof -
  assume d: "distinct ps" and n: "length ps = MAX_RECENT_FILES + 1"
  from n obtain a qs where ps: "ps = a # qs" and len: "length qs = 10"
    by (cases ps) (simp_all add: MAX_RECENT_FILES_def)
  have "touch_all ps [] = take 10 (rev ps)"
    using d by (rule touch_all_distinct_from_empty)
  then have res: "touch_all ps [] = rev (tl ps)"
    using ps len by simp
  moreover have "length (rev (tl ps)) = MAX_RECENT_FILES"
    using ps len by (simp add: MAX_RECENT_FILES_def)
  moreover have "hd ps \<notin> set (rev (tl ps))"
    using ps d by simp
  ultimately show ?thesis by simp
qed

theorem touch_eleven_keeps_latest_ten_witness:
  "touch_all [''a'', ''b'', ''c'', ''d'', ''e'', ''f'', ''g'', ''h'', ''i'', ''j'', ''k''] []
     = [''k'', ''j'', ''i'', ''h'', ''g'', ''f'', ''e'', ''d'', ''c'', ''b'']"
  using touch_eleven_keeps_latest_ten
          [of "[''a'', ''b'', ''c'', ''d'', ''e'', ''f'', ''g'', ''h'', ''i'', ''j'', ''k'']"]
  by (simp add: MAX_RECENT_FILES_def)

section \<open>The timer invariant\<close>

lemma timer_inv_cases:
  "timer_inv h \<longleftrightarrow> timers h = [] \<or> (\<exists>i due. timers h = [(i, due)] \<and> autoSaveTimeout h = Some i)"
  by (auto simp: timer_inv_def split: list.splits)

lemma scheduleAutoSave_armed:
  assumes "timer_inv h"
  shows "scheduleAutoSave h =
           h\<lparr>timers := [(nextTimer h, clock h + 1000)], nextTimer := nextTimer h + 1,
             autoSaveTimeout := Some (nextTimer h)\<rparr>"
  using assms
  by (auto simp: timer_inv_cases scheduleAutoSave_def clearTimeout_def setTimeout_def
           split: option.splits)

lemma autoSave_frame:
  "timers (snd (autoSave h)) = timers h"
  "autoSaveTimeout (snd (autoSave h)) = autoSaveTimeout h"
  "currentFileUri (snd (autoSave h)) = currentFileUri h"
  "currentContent (snd (autoSave h)) = currentContent h"
  "notifications (snd (autoSave h)) = notifications h"
  "posted (snd (autoSave h)) = posted h"
  "clock (snd (autoSave h)) = clock h"
  "write_fault (snd (autoSave h)) = write_fault h"
  "fst (autoSave h) = Normal"
  by (simp_all add: autoSave_def writeFile_def Let_def split: option.splits)

lemma autoSave_writes:
  "writes (snd (autoSave h)) =
     writes h @ (case currentFileUri h of None \<Rightarrow> [] | Some uri \<Rightarrow> [(uri, currentContent h)])"
  by (simp add: autoSave_def writeFile_def Let_def split: option.splits)

lemma elapse_idle:
  "timers h = [] \<Longrightarrow> elapse ms h = h\<lparr>clock := clock h + ms\<rparr>"
  by (simp add: elapse_def)

lemma elapse_early:
  "timers h = [(i, due)] \<Longrightarrow> clock h + ms < due \<Longrightarrow> elapse ms h = h\<lparr>clock := clock h + ms\<rparr>"
  by (simp add: elapse_def)

lemma elapse_due:
  "timers h = [(i, due)] \<Longrightarrow> due \<le> clock h + ms \<Longrightarrow>
     elapse ms h = snd (autoSave (h\<lparr>clock := clock h + ms, timers := []\<rparr>))"
  by (simp add: elapse_def fire_timer_def)

lemma timer_inv_elapse: "timer_inv h \<Longrightarrow> timer_inv (elapse ms h)"
proof -
  assume inv: "timer_inv h"
  show ?thesis
  proof (cases "timers h")
    case Nil
    then show ?thesis by (simp add: elapse_idle timer_inv_cases)
  next
    case (Cons t ts)
    with inv obtain i due where t: "timers h = [(i, due)]" and hd: "autoSaveTimeout h = Some i"
      by (auto simp: timer_inv_cases)
    show ?thesis
    proof (cases "due \<le> clock h + ms")
      case True
      then show ?thesis
        by (simp add: elapse_due [OF t] timer_inv_cases autoSave_frame)
    next
      case False
      then show ?thesis
        using t hd by (simp add: elapse_early [OF t] timer_inv_cases)
    qed
  qed
qed

lemma postMessage_frame:
  "timers (postMessage m h) = timers h" "autoSaveTimeout (postMessage m h) = autoSaveTimeout h"
  by (simp_all add: postMessage_def)

lemma restoreContent_frame:
  "timers (restoreContent h) = timers h" "autoSaveTimeout (restoreContent h) = autoSaveTimeout h"
  by (simp_all add: restoreContent_def loadLastFile_def postMessage_def
        split: option.splits sum.splits)

lemma openFileByPath_frame:
  "timers (snd (openFileByPath p h)) = timers h"
  "autoSaveTimeout (snd (openFileByPath p h)) = autoSaveTimeout h"
  by (simp_all add: openFileByPath_def postMessage_def saveLastFile_def notify_def
        split: sum.splits)

lemma openFile_frame:
  "timers (snd (openFile p h)) = timers h"
  "autoSaveTimeout (snd (openFile p h)) = autoSaveTimeout h"
  by (simp_all add: openFile_def postMessage_def saveLastFile_def Let_def
        split: sum.splits option.splits)

lemma saveFile_frame:
  "timers (snd (saveFile h)) = timers h"
  "autoSaveTimeout (snd (saveFile h)) = autoSaveTimeout h"
  by (simp_all add: saveFile_def writeFile_def notify_def Let_def split: option.splits)

lemma timer_inv_cong:
  "timers h' = timers h \<Longrightarrow> autoSaveTimeout h' = autoSaveTimeout h \<Longrightarrow> timer_inv h \<Longrightarrow> timer_inv h'"
  by (simp add: timer_inv_cases)

lemma timer_inv_step: "timer_inv h \<Longrightarrow> timer_inv (step h ev)"
proof (cases ev)
  case (Message data)
  assume inv: "timer_inv h"
  show ?thesis
  proof (cases data)
    case (ContentChanged c)
    have "timer_inv (h\<lparr>currentContent := c\<rparr>)"
      using inv by (simp add: timer_inv_cases)
    then show ?thesis
      using Message ContentChanged
      by (simp add: onDidReceiveMessage_def scheduleAutoSave_armed timer_inv_cases)
  next
    case Ready
    then show ?thesis
      using Message inv
      by (simp add: onDidReceiveMessage_def timer_inv_cong [OF restoreContent_frame])
  next
    case (UnknownFromWebview ty)
    then show ?thesis
      using Message inv by (simp add: onDidReceiveMessage_def)
  qed
next
  case (Elapse ms)
  assume "timer_inv h"
  then show ?thesis using Elapse by (simp add: timer_inv_elapse)
next
  case Resolve
  assume "timer_inv h"
  then show ?thesis using Resolve by (simp add: resolveWebviewView_def timer_inv_cases)
next
  case (Visibility v)
  assume "timer_inv h"
  then show ?thesis using Visibility
    by (simp add: onDidChangeVisibility_def timer_inv_cong [OF restoreContent_frame])
next
  case (OpenFile p)
  assume "timer_inv h"
  then show ?thesis using OpenFile by (simp add: timer_inv_cong [OF openFile_frame])
next
  case (ShowRecentFiles p)
  assume "timer_inv h"
  then show ?thesis using ShowRecentFiles
    by (auto simp: showRecentFiles_def notify_def timer_inv_cases openFileByPath_frame
             split: option.splits)
next
  case SaveFile
  assume "timer_inv h"
  then show ?thesis using SaveFile by (simp add: timer_inv_cong [OF saveFile_frame])
next
  case TogglePreviewCommand
  assume "timer_inv h"
  then show ?thesis using TogglePreviewCommand
    by (simp add: togglePreview_def timer_inv_cong [OF postMessage_frame])
qed

lemma timer_inv_run: "timer_inv h \<Longrightarrow> timer_inv (run evs h)"
  unfolding run_def by (induction evs arbitrary: h) (simp_all add: timer_inv_step)

lemma timer_inv_new: "timer_inv (new_provider files faults lastFile recent)"
  by (simp add: timer_inv_cases new_provider_def)

lemma timer_inv_pending: "timer_inv h \<Longrightarrow> length (timers h) \<le> 1"
  by (auto simp: timer_inv_cases)

section \<open>Properties of the provider\<close>

lemma run_append: "run (xs @ ys) h = run ys (run xs h)"
  by (simp add: run_def)

lemma edits_Cons:
  "edits ((c, ms) # es) = [Message (ContentChanged c), Elapse ms] @ edits es"
  by (simp add: edits_def)

lemma edit_state:
  assumes "timer_inv h"
  shows "snd (onDidReceiveMessage (ContentChanged c) h) =
           h\<lparr>currentContent := c, timers := [(nextTimer h, clock h + 1000)],
             nextTimer := nextTimer h + 1, autoSaveTimeout := Some (nextTimer h)\<rparr>"
proof -
  have "timer_inv (h\<lparr>currentContent := c\<rparr>)"
    using assms by (simp add: timer_inv_cases)
  then show ?thesis
    by (simp add: onDidReceiveMessage_def scheduleAutoSave_armed)
qed

lemma edit_wait_early:
  assumes "timer_inv h" "ms < 1000"
  shows "timer_inv (run [Message (ContentChanged c), Elapse ms] h)"
    and "writes (run [Message (ContentChanged c), Elapse ms] h) = writes h"
    and "currentFileUri (run [Message (ContentChanged c), Elapse ms] h) = currentFileUri h"
proof -
  let ?h1 = "snd (onDidReceiveMessage (ContentChanged c) h)"
  have t: "timers ?h1 = [(nextTimer h, clock ?h1 + 1000)]"
    by (simp add: edit_state [OF assms(1)])
  have e: "elapse ms ?h1 = ?h1\<lparr>clock := clock ?h1 + ms\<rparr>"
    using assms(2) by (intro elapse_early [OF t]) simp
  have r: "run [Message (ContentChanged c), Elapse ms] h = ?h1\<lparr>clock := clock ?h1 + ms\<rparr>"
    by (simp add: run_def e)
  show "timer_inv (run [Message (ContentChanged c), Elapse ms] h)"
    unfolding r by (simp add: edit_state [OF assms(1)] timer_inv_cases)
  show "writes (run [Message (ContentChanged c), Elapse ms] h) = writes h"
    unfolding r by (simp add: edit_state [OF assms(1)])
  show "currentFileUri (run [Message (ContentChanged c), Elapse ms] h) = currentFileUri h"
    unfolding r by (simp add: edit_state [OF assms(1)])
qed

lemma edit_wait_due:
  assumes "timer_inv h" "1000 \<le> ms"
  shows "writes (run [Message (ContentChanged c), Elapse ms] h) =
           writes h @ (case currentFileUri h of None \<Rightarrow> [] | Some uri \<Rightarrow> [(uri, c)])"
    and "timers (run [Message (ContentChanged c), Elapse ms] h) = []"
proof -
  let ?h1 = "snd (onDidReceiveMessage (ContentChanged c) h)"
  have t: "timers ?h1 = [(nextTimer h, clock ?h1 + 1000)]"
    by (simp add: edit_state [OF assms(1)])
  have e: "elapse ms ?h1 = snd (autoSave (?h1\<lparr>clock := clock ?h1 + ms, timers := []\<rparr>))"
    using assms(2) by (intro elapse_due [OF t]) simp
  have r: "run [Message (ContentChanged c), Elapse ms] h
             = snd (autoSave (?h1\<lparr>clock := clock ?h1 + ms, timers := []\<rparr>))"
    by (simp add: run_def e)
  show "writes (run [Message (ContentChanged c), Elapse ms] h) =
           writes h @ (case currentFileUri h of None \<Rightarrow> [] | Some uri \<Rightarrow> [(uri, c)])"
    unfolding r by (simp add: autoSave_writes edit_state [OF assms(1)] split: option.split)
  show "timers (run [Message (ContentChanged c), Elapse ms] h) = []"
    unfolding r by (simp add: autoSave_frame)
qed

lemma burst_writes_once:
  assumes "es \<noteq> []"
  shows "timer_inv h \<Longrightarrow> \<forall>e\<in>set (butlast es). snd e < 1000 \<Longrightarrow> 1000 \<le> snd (last es) \<Longrightarrow>
           writes (run (edits es) h) =
             writes h @ (case currentFileUri h of None \<Rightarrow> [] | Some uri \<Rightarrow> [(uri, fst (last es))])
           \<and> timers (run (edits es) h) = []"
  using assms
proof (induction es arbitrary: h rule: list_nonempty_induct)
  case (single e)
  obtain c ms where e: "e = (c, ms)" by (cases e)
  have "edits [e] = [Message (ContentChanged c), Elapse ms]"
    by (simp add: e edits_def)
  then show ?case
    using single edit_wait_due [of h ms c] unfolding e by (simp split: option.split)
next
  case (cons e es)
  obtain c ms where e: "e = (c, ms)" by (cases e)
  let ?h' = "run [Message (ContentChanged c), Elapse ms] h"
  have early: "ms < 1000"
    using cons.prems(2) cons.hyps by (simp add: e)
  have inv': "timer_inv ?h'" and w': "writes ?h' = writes h"
    and u': "currentFileUri ?h' = currentFileUri h"
    using edit_wait_early [OF cons.prems(1) early, of c] by simp_all
  have rest: "\<forall>x\<in>set (butlast es). snd x < 1000" "1000 \<le> snd (last es)"
    using cons.prems(2,3) cons.hyps by simp_all
  have "run (edits (e # es)) h = run (edits es) ?h'"
    by (simp only: e edits_Cons run_append)
  then show ?case
    using cons.IH [OF inv' rest] w' u' cons.hyps by (simp split: option.split)
qed

text \<open>
  C4. Take a provider with a file open whose pending timeout, if any, is the one it
  holds, and a burst of one or more \<^verbatim>\<open>contentChanged\<close> messages with nothing but time
  between them, each followed by less than 1000 ms before the next and the last by
  1000 ms or more. The burst adds exactly one call of \<^verbatim>\<open>writeFile\<close>, to the open file
  and with the content of the last message, and leaves no timeout pending. Under any
  events at all, from that provider or from a new one, at most one timeout is pending
  at every point.
\<close>

theorem autosave_debounce:
  assumes "timer_inv h" and "currentFileUri h = Some uri" and "es \<noteq> []"
    and "\<forall>e\<in>set (butlast es). snd e < 1000" and "1000 \<le> snd (last es)"
  shows "writes (run (edits es) h) = writes h @ [(uri, fst (last es))]
         \<and> timers (run (edits es) h) = []
         \<and> length (timers (run evs h)) \<le> 1
         \<and> length (timers (run evs (new_provider files faults lastFile recent))) \<le> 1"
  using burst_writes_once [OF assms(3) assms(1) assms(4) assms(5)] assms(2)
    timer_inv_pending [OF timer_inv_run [OF assms(1)], of evs]
    timer_inv_pending [OF timer_inv_run [OF timer_inv_new], of evs files faults lastFile recent]
  by simp

lemma example_loaded_fields:
  "currentFileUri example_loaded = Some ''/notes.md''"
  "currentContent example_loaded = ''# Title''"
  "timers example_loaded = []"
  "writes example_loaded = []"
  "notifications example_loaded = []"
  "recentFiles example_loaded = [''/notes.md'']"
  by (simp_all add: example_loaded_def example_empty_def new_provider_def resolveWebviewView_def
        openFile_def example_disk_def saveLastFile_def postMessage_def Let_def
        addToRecentFiles_def MAX_RECENT_FILES_def)

theorem autosave_debounce_witness:
  "writes (run (edits [(''a'', 200), (''ab'', 999), (''abc'', 1000)]) example_loaded)
     = [(''/notes.md'', ''abc'')]
   \<and> timers (run (edits [(''a'', 200), (''ab'', 999), (''abc'', 1000)]) example_loaded) = []"
  using autosave_debounce [of example_loaded "''/notes.md''"
          "[(''a'', 200), (''ab'', 999), (''abc'', 1000)]" "[]"]
  by (simp add: example_loaded_fields timer_inv_cases)

text \<open>
  While no file is open, the timeout of a change still fires, and \<^verbatim>\<open>_autoSave\<close>
  returns before it writes: the save is skipped.
\<close>

lemma autosave_skipped_without_file:
  "writes (run (edits [(''a'', 1000)]) example_empty) = []"
  by (simp add: edits_def run_def onDidReceiveMessage_def scheduleAutoSave_def setTimeout_def
        elapse_def fire_timer_def autoSave_def example_empty_def new_provider_def
        resolveWebviewView_def Let_def)

lemma example_empty_fields:
  "currentFileUri example_empty = None"
  "currentContent example_empty = []"
  "timers example_empty = []"
  "writes example_empty = []"
  "notifications example_empty = []"
  "nextTimer example_empty = 0"
  "clock example_empty = 0"
  by (simp_all add: example_empty_def new_provider_def resolveWebviewView_def)

lemma example_full_fields:
  "currentFileUri example_full = Some ''/notes.md''"
  "currentContent example_full = ''# Title''"
  "writes example_full = []"
  "notifications example_full = []"
  "write_fault example_full ''/notes.md'' = Some ''NoSpace''"
  by (simp_all add: example_full_def example_loaded_fields disk_full_def)

text \<open>
  C1, as stated, fails: with no file open, \<^verbatim>\<open>contentChanged\<close> replaces the buffer and
  starts a timeout.
\<close>

theorem contentChanged_while_empty_counterexample:
  "timers (snd (onDidReceiveMessage (ContentChanged ''x'') example_empty)) = [(0, 1000)]
   \<and> currentContent (snd (onDidReceiveMessage (ContentChanged ''x'') example_empty)) = ''x''
   \<and> currentContent example_empty = []
   \<and> timers example_empty = []"
  by (simp add: edit_state timer_inv_cases example_empty_fields)

text \<open>
  C1, amended. With no file open, the handler of \<^verbatim>\<open>contentChanged\<close> returns
  normally; it stores the content and starts the timeout of 1000 ms, and changes nothing
  else. When that timeout fires, nothing is written and nothing is shown, no timeout is
  pending and still no file is open.
\<close>

theorem contentChanged_while_empty:
  assumes "currentFileUri h = None" and "timer_inv h"
  shows "onDidReceiveMessage (ContentChanged c) h =
           (Normal, h\<lparr>currentContent := c, timers := [(nextTimer h, clock h + 1000)],
                      nextTimer := nextTimer h + 1, autoSaveTimeout := Some (nextTimer h)\<rparr>)
         \<and> writes (run [Message (ContentChanged c), Elapse 1000] h) = writes h
         \<and> notifications (run [Message (ContentChanged c), Elapse 1000] h) = notifications h
         \<and> timers (run [Message (ContentChanged c), Elapse 1000] h) = []
         \<and> currentFileUri (run [Message (ContentChanged c), Elapse 1000] h) = None"
proof -
  let ?h1 = "snd (onDidReceiveMessage (ContentChanged c) h)"
  have n: "fst (onDidReceiveMessage (ContentChanged c) h) = Normal"
    by (simp add: onDidReceiveMessage_def)
  have s: "?h1 = h\<lparr>currentContent := c, timers := [(nextTimer h, clock h + 1000)],
                    nextTimer := nextTimer h + 1, autoSaveTimeout := Some (nextTimer h)\<rparr>"
    by (rule edit_state [OF assms(2)])
  have t: "timers ?h1 = [(nextTimer h, clock ?h1 + 1000)]"
    by (simp add: s)
  have u: "currentFileUri ?h1 = None"
    using assms(1) by (simp add: s)
  have e: "elapse 1000 ?h1 = snd (autoSave (?h1\<lparr>clock := clock ?h1 + 1000, timers := []\<rparr>))"
    by (intro elapse_due [OF t]) simp
  have r: "run [Message (ContentChanged c), Elapse 1000] h = ?h1\<lparr>clock := clock ?h1 + 1000, timers := []\<rparr>"
    using u by (simp add: run_def e autoSave_def)
  show ?thesis
    using n s unfolding r by (simp add: prod_eq_iff assms(1))
qed

theorem contentChanged_while_empty_witness:
  "onDidReceiveMessage (ContentChanged ''x'') example_empty =
     (Normal, example_empty\<lparr>currentContent := ''x'', timers := [(0, 1000)],
                nextTimer := 1, autoSaveTimeout := Some 0\<rparr>)
   \<and> writes (run [Message (ContentChanged ''x''), Elapse 1000] example_empty) = []
   \<and> notifications (run [Message (ContentChanged ''x''), Elapse 1000] example_empty) = []
   \<and> timers (run [Message (ContentChanged ''x''), Elapse 1000] example_empty) = []"
  using contentChanged_while_empty [of example_empty "''x''"]
  by (simp add: example_empty_fields timer_inv_cases)

lemma openFileByPath_read_error:
  "disk h filePath = Inl e \<Longrightarrow>
     openFileByPath filePath h = (Normal, notify (ErrorMessage (''Failed to open file: '' @ filePath)) h)"
  by (simp add: openFileByPath_def)

lemma openFile_read_error:
  "disk h uri = Inl e \<Longrightarrow> openFile (Some uri) h = (Threw e, h\<lparr>currentFileUri := Some uri\<rparr>)"
  by (simp add: openFile_def)

text \<open>
  C3. \<^verbatim>\<open>openFile\<close> at a file that cannot be read, while \<^verbatim>\<open>/notes.md\<close> is open: the
  promise is rejected with the read error, no message is shown, the buffer is kept but
  the current file is now the unreadable one, and after the next edit the auto-save
  calls \<^verbatim>\<open>writeFile\<close> on it with the buffer that came from \<^verbatim>\<open>/notes.md\<close>.
  (\<^verbatim>\<open>_openFileByPath\<close> keeps the state and shows the message:
  \<open>openFileByPath_read_error\<close>.)
\<close>

theorem openFile_read_error_example:
  "currentFileUri example_loaded = Some ''/notes.md''
   \<and> currentContent example_loaded = ''# Title''
   \<and> disk example_loaded ''/locked.md'' = Inl ''NoPermissions''
   \<and> fst (openFile (Some ''/locked.md'') example_loaded) = Threw ''NoPermissions''
   \<and> currentFileUri (snd (openFile (Some ''/locked.md'') example_loaded)) = Some ''/locked.md''
   \<and> currentContent (snd (openFile (Some ''/locked.md'') example_loaded)) = ''# Title''
   \<and> notifications (snd (openFile (Some ''/locked.md'') example_loaded)) = []
   \<and> writes (run [OpenFile (Some ''/locked.md''), Message (ContentChanged ''# Title!''), Elapse 1000]
               example_loaded) = [(''/locked.md'', ''# Title!'')]"
proof -
  have d: "disk example_loaded ''/locked.md'' = Inl ''NoPermissions''"
    by (simp add: example_loaded_def example_empty_def new_provider_def resolveWebviewView_def
          openFile_def example_disk_def saveLastFile_def postMessage_def Let_def)
  have inv: "timer_inv (example_loaded\<lparr>currentFileUri := Some ''/locked.md''\<rparr>)"
    by (simp add: timer_inv_cases example_loaded_fields)
  have "run [OpenFile (Some ''/locked.md''), Message (ContentChanged ''# Title!''), Elapse 1000] example_loaded
          = run [Message (ContentChanged ''# Title!''), Elapse 1000]
              (example_loaded\<lparr>currentFileUri := Some ''/locked.md''\<rparr>)"
    by (simp add: run_def openFile_read_error [OF d])
  then have "writes (run [OpenFile (Some ''/locked.md''), Message (ContentChanged ''# Title!''), Elapse 1000]
               example_loaded) = [(''/locked.md'', ''# Title!'')]"
    using edit_wait_due(1) [OF inv, of 1000 "''# Title!''"]
    by (simp add: example_loaded_fields)
  then show ?thesis
    using d by (simp add: openFile_read_error [OF d] example_loaded_fields)
qed

lemma fire_timer_notifications: "notifications (fire_timer t h) = notifications h"
  by (simp add: fire_timer_def autoSave_frame)

lemma fire_timers_notifications:
  "notifications (foldl (\<lambda>s t. fire_timer t s) h ts) = notifications h"
  by (induction ts arbitrary: h) (simp_all add: fire_timer_notifications)

lemma elapse_notifications: "notifications (elapse ms h) = notifications h"
  by (simp add: elapse_def Let_def fire_timers_notifications)

text \<open>
  C8. \<^verbatim>\<open>_autoSave\<close> returns normally whether its write fails or not, and neither it
  nor the timer callbacks that run while time passes show anything; the file and the
  buffer stay. \<^verbatim>\<open>saveFile\<close> makes the same call of \<^verbatim>\<open>writeFile\<close> and always shows
  exactly one message: the error when the write fails, the name of the saved file when
  it succeeds, and a warning when no file is open.
\<close>

theorem save_failure_visibility:
  "fst (autoSave h) = Normal
   \<and> notifications (snd (autoSave h)) = notifications h
   \<and> notifications (elapse ms h) = notifications h
   \<and> currentFileUri (snd (autoSave h)) = currentFileUri h
   \<and> currentContent (snd (autoSave h)) = currentContent h
   \<and> writes (snd (autoSave h)) =
       writes h @ (case currentFileUri h of None \<Rightarrow> [] | Some uri \<Rightarrow> [(uri, currentContent h)])
   \<and> fst (saveFile h) = Normal
   \<and> writes (snd (saveFile h)) =
       writes h @ (case currentFileUri h of None \<Rightarrow> [] | Some uri \<Rightarrow> [(uri, currentContent h)])
   \<and> currentContent (snd (saveFile h)) = currentContent h
   \<and> notifications (snd (saveFile h)) =
       notifications h @
         [case currentFileUri h of
            None \<Rightarrow> WarningMessage ''No file is currently open''
          | Some uri \<Rightarrow>
              (case write_fault h uri of
                 Some error \<Rightarrow> ErrorMessage (''Failed to save file: '' @ error)
               | None \<Rightarrow> InformationMessage (''Saved '' @ getFilename uri))]"
proof -
  have a: "fst (autoSave h) = Normal
     \<and> notifications (snd (autoSave h)) = notifications h
     \<and> notifications (elapse ms h) = notifications h
     \<and> currentFileUri (snd (autoSave h)) = currentFileUri h
     \<and> currentContent (snd (autoSave h)) = currentContent h"
    by (simp add: autoSave_frame elapse_notifications)
  have b: "fst (saveFile h) = Normal
     \<and> writes (snd (saveFile h)) =
         writes h @ (case currentFileUri h of None \<Rightarrow> [] | Some uri \<Rightarrow> [(uri, currentContent h)])
     \<and> currentContent (snd (saveFile h)) = currentContent h
     \<and> notifications (snd (saveFile h)) =
         notifications h @
           [case currentFileUri h of
              None \<Rightarrow> WarningMessage ''No file is currently open''
            | Some uri \<Rightarrow>
                (case write_fault h uri of
                   Some error \<Rightarrow> ErrorMessage (''Failed to save file: '' @ error)
                 | None \<Rightarrow> InformationMessage (''Saved '' @ getFilename uri))]"
    by (simp add: saveFile_def writeFile_def notify_def Let_def split: option.split)
  show ?thesis
    using a b autoSave_writes [of h] by (simp only: simp_thms)
qed

theorem save_failure_visibility_witness:
  "fst (autoSave example_full) = Normal
   \<and> writes (snd (autoSave example_full)) = [(''/notes.md'', ''# Title'')]
   \<and> notifications (snd (autoSave example_full)) = []
   \<and> fst (saveFile example_full) = Normal
   \<and> notifications (snd (saveFile example_full)) = [ErrorMessage ''Failed to save file: NoSpace'']
   \<and> notifications (snd (saveFile example_loaded)) = [InformationMessage ''Saved notes.md'']"
  using save_failure_visibility [of example_full 0] save_failure_visibility [of example_loaded 0]
  by (simp add: example_full_fields example_loaded_fields example_loaded_def example_empty_def
        new_provider_def resolveWebviewView_def openFile_def example_disk_def saveLastFile_def
        postMessage_def Let_def no_fault_def getFilename_def path_separator_def)

text \<open>
  C10. The command \<^verbatim>\<open>markdownSidebar.openFromExplorer\<close> calls the member
  \<^verbatim>\<open>openFileFromUri\<close>, which the class does not define: for every argument the
  command throws the \<^verbatim>\<open>TypeError\<close> of calling an undefined property and leaves the
  provider as it was.
\<close>

theorem openFromExplorer_not_a_function:
  "command_member ''markdownSidebar.openFromExplorer'' = Some ''openFileFromUri''
   \<and> ''openFileFromUri'' \<notin> set provider_members
   \<and> executeCommand ''markdownSidebar.openFromExplorer'' uri picked h =
       (Threw ''TypeError: provider.openFileFromUri is not a function'', h)"
  by (simp add: executeCommand_def command_member_def call_member_def provider_members_def)

section \<open>Properties of the page\<close>

subsection \<open>The counter and the ids\<close>

















subsection \<open>The view mode\<close>

lemma renderPreview_flags:
  "hasFile (snd (renderPreview L text w)) = hasFile w"
  "isPreviewMode (snd (renderPreview L text w)) = isPreviewMode w"
  by (simp_all add: renderPreview_def Let_def split: prod.splits sum.splits)

lemma updateView_flags:
  "hasFile (snd (updateView L w)) = hasFile w"
  "isPreviewMode (snd (updateView L w)) = isPreviewMode w"
proof -
  let ?w = "w\<lparr>editor_hidden := True, preview_hidden := False\<rparr>"
  obtain r w' where r: "renderPreview L (editor_value w) ?w = (r, w')"
    by (cases "renderPreview L (editor_value w) ?w") auto
  have "hasFile w' = hasFile w" "isPreviewMode w' = isPreviewMode w"
    using renderPreview_flags [of L "editor_value w" ?w] r by simp_all
  then show "hasFile (snd (updateView L w)) = hasFile w"
    and "isPreviewMode (snd (updateView L w)) = isPreviewMode w"
    using r by (auto simp: updateView_def split: completion.splits)
qed

lemma view_step_hasFile:
  "hasFile (view_step L w ev) \<longleftrightarrow> hasFile w \<or> (\<exists>content name. ev = FromHost (LoadContent content name))"
proof (cases ev)
  case (FromHost m)
  then show ?thesis
    by (cases m) (auto simp: on_message_def updateView_flags)
next
  case (Input x)
  then show ?thesis by (simp add: on_input_def)
qed

lemma view_step_placeholder:
  "\<not> hasFile (view_step L w ev) \<Longrightarrow> placeholder_state w \<Longrightarrow> placeholder_state (view_step L w ev)"
proof (cases ev)
  case (FromHost m)
  assume "\<not> hasFile (view_step L w ev)" "placeholder_state w"
  then show ?thesis
    using FromHost by (cases m) (auto simp: on_message_def updateView_flags placeholder_state_def)
next
  case (Input x)
  assume "\<not> hasFile (view_step L w ev)" "placeholder_state w"
  then show ?thesis using Input by (simp add: on_input_def placeholder_state_def)
qed

lemma view_step_preview:
  "(isPreviewMode w \<longrightarrow> hasFile w) \<Longrightarrow>
     isPreviewMode (view_step L w ev) \<longrightarrow> hasFile (view_step L w ev)"
proof (cases ev)
  case (FromHost m)
  assume "isPreviewMode w \<longrightarrow> hasFile w"
  then show ?thesis
    using FromHost by (cases m) (auto simp: on_message_def updateView_flags)
next
  case (Input x)
  assume "isPreviewMode w \<longrightarrow> hasFile w"
  then show ?thesis using Input by (simp add: on_input_def)
qed

lemma view_run_snoc: "view_run L (evs @ [ev]) w = view_step L (view_run L evs w) ev"
  by (simp add: view_run_def)

lemma view_run_invariant:
  "(hasFile (view_run L evs new_webview) \<longleftrightarrow> (\<exists>content name. FromHost (LoadContent content name) \<in> set evs))
   \<and> (isPreviewMode (view_run L evs new_webview) \<longrightarrow> hasFile (view_run L evs new_webview))
   \<and> (\<not> hasFile (view_run L evs new_webview) \<longrightarrow> placeholder_state (view_run L evs new_webview))"
proof (induction evs rule: rev_induct)
  case Nil
  show ?case by (simp add: view_run_def new_webview_def placeholder_state_def)
next
  case (snoc ev evs)
  let ?w = "view_run L evs new_webview"
  have h: "hasFile (view_step L ?w ev) \<longleftrightarrow> (\<exists>content name. FromHost (LoadContent content name) \<in> set (evs @ [ev]))"
    using snoc by (auto simp: view_step_hasFile)
  have p: "isPreviewMode (view_step L ?w ev) \<longrightarrow> hasFile (view_step L ?w ev)"
    using snoc by (intro view_step_preview) blast
  have e: "\<not> hasFile (view_step L ?w ev) \<longrightarrow> placeholder_state (view_step L ?w ev)"
    using snoc view_step_placeholder [of L ?w ev] by (auto simp: view_step_hasFile)
  show ?case
    unfolding view_run_snoc using h p e by blast
qed

text \<open>
  C9. After any sequence of messages and inputs on a fresh page, \<^verbatim>\<open>isPreviewMode\<close> holds
  only if \<^verbatim>\<open>hasFile\<close> does, \<^verbatim>\<open>hasFile\<close> holds exactly when a \<^verbatim>\<open>loadContent\<close>
  message has been handled, and while it does not hold the page is as it was at the
  start: edit mode, indicator \<^verbatim>\<open>Edit\<close>, the placeholder shown, editor and preview
  hidden.
\<close>

theorem preview_only_with_file:
  "(isPreviewMode (view_run L evs new_webview) \<longrightarrow> hasFile (view_run L evs new_webview))
   \<and> (hasFile (view_run L evs new_webview) \<longleftrightarrow> (\<exists>content name. FromHost (LoadContent content name) \<in> set evs))
   \<and> (\<not> hasFile (view_run L evs new_webview) \<longrightarrow>
        \<not> isPreviewMode (view_run L evs new_webview)
        \<and> modeIndicator_text (view_run L evs new_webview) = ''Edit''
        \<and> \<not> placeholder_hidden (view_run L evs new_webview)
        \<and> editor_hidden (view_run L evs new_webview)
        \<and> preview_hidden (view_run L evs new_webview))"
  using view_run_invariant [of L evs] unfolding placeholder_state_def by blast

theorem preview_only_with_file_witness:
  "isPreviewMode (view_run example_libs
       [FromHost (LoadContent example_doc ''t.md''), FromHost TogglePreview] new_webview)
   \<and> hasFile (view_run example_libs
       [FromHost (LoadContent example_doc ''t.md''), FromHost TogglePreview] new_webview)
   \<and> \<not> hasFile (view_run example_libs [FromHost TogglePreview, Input ''x''] new_webview)
   \<and> \<not> isPreviewMode (view_run example_libs [FromHost TogglePreview, Input ''x''] new_webview)
   \<and> modeIndicator_text (view_run example_libs [FromHost TogglePreview, Input ''x''] new_webview)
        = ''Edit''
   \<and> editor_hidden (view_run example_libs [FromHost TogglePreview, Input ''x''] new_webview)"
proof -
  have a: "isPreviewMode (view_run example_libs
       [FromHost (LoadContent example_doc ''t.md''), FromHost TogglePreview] new_webview)"
    by (simp add: view_run_def on_message_def updateView_flags)
  have b: "\<forall>content name. FromHost (LoadContent content name) \<notin> set [FromHost TogglePreview, Input ''x'']"
    by simp
  show ?thesis
    using a b
      preview_only_with_file [of example_libs "[FromHost (LoadContent example_doc ''t.md''), FromHost TogglePreview]"]
      preview_only_with_file [of example_libs "[FromHost TogglePreview, Input ''x'']"]
    by blast
qed

subsection \<open>Diagram failures\<close>












end
